theory Spec2Isabelle
  imports Main "HOL-Library.Multiset" "HOL-Library.Product_Lexorder"
begin

section \<open>Text\<close>

text \<open>
  The program is \<^verbatim>\<open>update_cv.py\<close>. A Python \<^verbatim>\<open>str\<close> is modelled as a \<^typ>\<open>string\<close>
  holding the UTF-8 bytes of the text: every ASCII character is one \<^typ>\<open>char\<close>, the em dash
  and the en dash are three each. The Unicode-aware string methods (\<^verbatim>\<open>strip\<close>,
  \<^verbatim>\<open>split\<close>, \<^verbatim>\<open>lower\<close>, \<^verbatim>\<open>int\<close>) are modelled on their ASCII range: white space
  and digits outside ASCII are ordinary characters here, and the interpreter's optional
  limit on the number of digits \<^verbatim>\<open>int\<close> accepts is not modelled. No character outside
  ASCII lowers to a letter of the words the program compares with, so those comparisons
  are exact.
\<close>

text \<open>The exceptions the modelled functions can raise.\<close>

datatype py_error = KeyError | AttributeError | IndexError | ValueError

text \<open>Python's truth value of an optional string: \<^verbatim>\<open>None\<close> and \<^verbatim>\<open>""\<close> are false.\<close>

definition truthy :: "string option \<Rightarrow> bool" where
  "truthy v = (case v of None \<Rightarrow> False | Some s \<Rightarrow> s \<noteq> [])"

text \<open>\<^verbatim>\<open>d.get(key, "")\<close> on a key that holds a string when it is there.\<close>

definition get_str :: "string option \<Rightarrow> string" where
  "get_str v = (case v of None \<Rightarrow> [] | Some s \<Rightarrow> s)"

text \<open>\<^verbatim>\<open>str.isspace\<close> on one ASCII character: tab, line feed, vertical tab, form feed,
  carriage return, the four separators 0x1C..0x1F and the space.\<close>

definition is_space :: "char \<Rightarrow> bool" where
  "is_space c = (c \<in> set [CHR 0x09, CHR 0x0A, CHR 0x0B, CHR 0x0C, CHR 0x0D,
                            CHR 0x1C, CHR 0x1D, CHR 0x1E, CHR 0x1F, CHR 0x20])"

text \<open>\<^verbatim>\<open>s.strip()\<close>.\<close>

definition strip :: "string \<Rightarrow> string" where
  "strip s = rev (dropWhile is_space (rev (dropWhile is_space s)))"

text \<open>\<^verbatim>\<open>s.lower()\<close>, on ASCII letters.\<close>

definition lower_char :: "char \<Rightarrow> char" where
  "lower_char c =
     (case map_of (zip ''ABCDEFGHIJKLMNOPQRSTUVWXYZ'' ''abcdefghijklmnopqrstuvwxyz'') c of
        Some l \<Rightarrow> l
      | None \<Rightarrow> c)"

definition lower :: "string \<Rightarrow> string" where
  "lower s = map lower_char s"

text \<open>\<^verbatim>\<open>"sep".join(parts)\<close>.\<close>

fun join :: "string \<Rightarrow> string list \<Rightarrow> string" where
  "join sep [] = []"
| "join sep [x] = x"
| "join sep (x # y # ys) = x @ sep @ join sep (y # ys)"

section \<open>LaTeX helpers\<close>

definition LATEX_SPECIALS :: "(char \<times> string) list" where
  "LATEX_SPECIALS =
     [(CHR 0x5C, CHR 0x5C # ''textbackslash{}''),
      (CHR ''{'', [CHR 0x5C, CHR ''{'']),
      (CHR ''}'', [CHR 0x5C, CHR ''}'']),
      (CHR ''$'', [CHR 0x5C, CHR ''$'']),
      (CHR ''&'', [CHR 0x5C, CHR ''&'']),
      (CHR ''#'', [CHR 0x5C, CHR ''#'']),
      (CHR ''%'', [CHR 0x5C, CHR ''%'']),
      (CHR ''_'', [CHR 0x5C, CHR ''_'']),
      (CHR ''~'', CHR 0x5C # ''textasciitilde{}''),
      (CHR ''^'', CHR 0x5C # ''textasciicircum{}'')]"

definition latex_escape :: "string \<Rightarrow> string" where
  "latex_escape text =
     (if text = [] then []
      else concat (map (\<lambda>ch. case map_of LATEX_SPECIALS ch of Some r \<Rightarrow> r | None \<Rightarrow> [ch]) text))"

section \<open>Notion rich text to LaTeX\<close>

text \<open>
  A rich-text object is a dictionary; the keys the program reads are fields here, an
  absent key is \<^term>\<open>None\<close>, and a key that is there holds a value of the type the Notion
  API gives it. An annotation the dictionary lacks is false.
\<close>

record annotations =
  bold :: bool
  italic :: bool
  strikethrough :: bool
  underline :: bool
  code :: bool

record span =
  plain_text :: "string option"
  href :: "string option"
  annotations :: "annotations option"

definition no_annotations :: annotations where
  "no_annotations =
     \<lparr>bold = False, italic = False, strikethrough = False, underline = False, code = False\<rparr>"

text \<open>\<^verbatim>\<open>(rt.get("annotations") or {})\<close>.\<close>

definition span_ann :: "span \<Rightarrow> annotations" where
  "span_ann rt = (case annotations rt of None \<Rightarrow> no_annotations | Some a \<Rightarrow> a)"

text \<open>The f-strings \<^verbatim>\<open>\cmd{t}\<close> and \<^verbatim>\<open>\href{url}{t}\<close>.\<close>

definition wrap :: "string \<Rightarrow> string \<Rightarrow> string" where
  "wrap cmd t = CHR 0x5C # cmd @ ''{'' @ t @ ''}''"

definition wrap_href :: "string \<Rightarrow> string \<Rightarrow> string" where
  "wrap_href url t = CHR 0x5C # ''href{'' @ url @ ''}{'' @ t @ ''}''"

text \<open>The body of the loop of \<^verbatim>\<open>rt_to_latex\<close>: the value appended for one span.\<close>

definition rt_span :: "span \<Rightarrow> string" where
  "rt_span rt =
     (let t0 = get_str (plain_text rt);
          t1 = latex_escape t0;
          ann = span_ann rt;
          t2 = (if truthy (href rt) then wrap_href (the (href rt)) t1 else t1);
          t3 = (if code ann then wrap ''texttt'' t2 else t2);
          t4 = (if bold ann then wrap ''textbf'' t3 else t3);
          t5 = (if italic ann then wrap ''textit'' t4 else t4);
          t6 = (if underline ann then wrap ''uline'' t5 else t5);
          t7 = (if strikethrough ann then wrap ''sout'' t6 else t6)
      in t7)"

definition rt_to_latex :: "span list \<Rightarrow> string" where
  "rt_to_latex rich_text = concat (map rt_span rich_text)"

section \<open>Notion blocks\<close>

text \<open>
  A block is a dictionary with a \<^verbatim>\<open>type\<close>, a payload stored under the key its type names,
  \<^verbatim>\<open>has_children\<close> and an \<^verbatim>\<open>id\<close>. \<^term>\<open>b_fields\<close> holds the payloads by key, so that a
  block whose payload is missing, or stored under another key, can be written down.
  \<^term>\<open>children\<close> is what \<^verbatim>\<open>list_children(notion, block["id"])\<close> returns for the block: the
  Notion client is outside the model, and its answers are part of the input.
\<close>

record payload =
  rich_text :: "span list option"
  expression :: "string option"

datatype block =
  Block (b_type: "string option") (b_fields: "(string \<times> payload) list")
        (has_children: bool) (b_id: "string option") (children: "block list")

text \<open>\<^verbatim>\<open>payload.get("rich_text", [])\<close>, as \<^verbatim>\<open>rt_to_latex\<close> reads it (\<^verbatim>\<open>rich_text or []\<close>).\<close>

definition get_rich_text :: "payload \<Rightarrow> span list" where
  "get_rich_text p = (case rich_text p of None \<Rightarrow> [] | Some xs \<Rightarrow> xs)"

subsection \<open>The region filter\<close>

text \<open>The expression assigned to \<^verbatim>\<open>text_plain\<close>: the first span's plain text, stripped, when
  the heading has a span at all.\<close>

definition first_span_text :: "payload \<Rightarrow> string" where
  "first_span_text p =
     (case rich_text p of
        Some (s # _) \<Rightarrow> strip (get_str (plain_text s))
      | _ \<Rightarrow> [])"

text \<open>The loop of \<^verbatim>\<open>filter_for_resume_region\<close>, with its three variables as arguments;
  \<^verbatim>\<open>break\<close> returns what has been collected.\<close>

fun filter_loop :: "bool \<Rightarrow> bool \<Rightarrow> block list \<Rightarrow> block list \<Rightarrow> py_error + block list" where
  "filter_loop in_resume found_for_resume filtered [] = Inr filtered"
| "filter_loop in_resume found_for_resume filtered (b # blocks) =
     (if b_type b = Some ''heading_1'' then
        (case map_of (b_fields b) ''heading_1'' of
           None \<Rightarrow> Inl KeyError
         | Some p \<Rightarrow>
             if lower (first_span_text p) = ''for resume'' then
               filter_loop True True filtered blocks
             else if lower (first_span_text p) = ''not for resume'' then
               Inr filtered
             else
               filter_loop in_resume found_for_resume
                 (if \<not> found_for_resume \<or> in_resume then filtered @ [b] else filtered) blocks)
      else
        filter_loop in_resume found_for_resume
          (if \<not> found_for_resume \<or> in_resume then filtered @ [b] else filtered) blocks)"

definition filter_for_resume_region :: "block list \<Rightarrow> py_error + block list" where
  "filter_for_resume_region blocks = filter_loop True False [] blocks"

subsection \<open>The block converter\<close>

definition newline :: string where
  "newline = [CHR 0x0A]"

definition is_list_type :: "string option \<Rightarrow> bool" where
  "is_list_type tp = (tp = Some ''bulleted_list_item'' \<or> tp = Some ''numbered_list_item'')"

definition is_paragraph_like :: "string option \<Rightarrow> bool" where
  "is_paragraph_like tp =
     (tp = Some ''paragraph'' \<or> tp = Some ''quote'' \<or> tp = Some ''equation'' \<or> tp = Some ''code'')"

definition env_of :: "string option \<Rightarrow> string" where
  "env_of lt = (if lt = Some ''bulleted_list_item'' then ''itemize'' else ''enumerate'')"

definition begin_env :: "string \<Rightarrow> string" where
  "begin_env env = CHR 0x5C # ''begin{'' @ env @ ''}''"

definition end_env :: "string \<Rightarrow> string" where
  "end_env env = CHR 0x5C # ''end{'' @ env @ ''}''"

text \<open>The text of a paragraph-like block, from its payload.\<close>

definition paragraph_text :: "string option \<Rightarrow> payload \<Rightarrow> string" where
  "paragraph_text tp p =
     (if tp = Some ''paragraph'' then rt_to_latex (get_rich_text p)
      else if tp = Some ''quote'' then
        CHR 0x5C # ''begin{quote}'' @ rt_to_latex (get_rich_text p) @ CHR 0x5C # ''end{quote}''
      else if tp = Some ''equation'' then
        ''$ '' @ latex_escape (get_str (expression p)) @ '' $''
      else
        CHR 0x5C # ''begin{verbatim}'' @ newline @ rt_to_latex (get_rich_text p) @ newline
          @ CHR 0x5C # ''end{verbatim}'')"

text \<open>\<^verbatim>\<open>tp.startswith("heading_")\<close>.\<close>

definition startswith :: "string \<Rightarrow> string \<Rightarrow> bool" where
  "startswith s pre = (take (length pre) s = pre)"

lemma size_list_filter_le: "size_list f (filter P xs) \<le> size_list f xs"
  by (induction xs) auto

lemma size_list_takeWhile_le: "size_list f (takeWhile P xs) \<le> size_list f xs"
  by (induction xs) auto

lemma size_list_dropWhile_le: "size_list f (dropWhile P xs) \<le> size_list f xs"
  by (induction xs) auto

text \<open>
  \<^verbatim>\<open>_render_list_block_item\<close>, the loops that render every item of a list of items, and
  the loop of \<^verbatim>\<open>convert_blocks_to_latex\<close>, which returns the list \<^verbatim>\<open>out\<close>. An exception
  is \<^term>\<open>Inl\<close>, and ends the loop it is raised in. The \<^verbatim>\<open>level\<close> argument is never read
  and is left out. \<^term>\<open>render_items\<close> passes each item's own type as \<^verbatim>\<open>list_type\<close>: the
  nested loop does so, and in a run every block has the run's type.
\<close>

function render_list_block_item :: "block \<Rightarrow> string \<Rightarrow> string \<Rightarrow> py_error + string"
  and render_items :: "block list \<Rightarrow> string \<Rightarrow> py_error + string list"
  and convert_out :: "block list \<Rightarrow> string \<Rightarrow> py_error + string list"
where
  "render_list_block_item block list_type mode =
     (case map_of (b_fields block) list_type of
        None \<Rightarrow> Inl KeyError
      | Some p \<Rightarrow>
          if has_children block then
            (case b_id block of
               None \<Rightarrow> Inl KeyError
             | Some _ \<Rightarrow>
                 if children block \<noteq> [] then
                   if filter (\<lambda>c. is_list_type (b_type c)) (children block) \<noteq> [] then
                     (case render_items (filter (\<lambda>c. is_list_type (b_type c)) (children block)) mode of
                        Inl e \<Rightarrow> Inl e
                      | Inr inner \<Rightarrow>
                          Inr ((CHR 0x5C # ''item '' @ rt_to_latex (get_rich_text p)) @ newline @
                               join newline
                                 ([begin_env (env_of (b_type (hd (filter (\<lambda>c. is_list_type (b_type c)) (children block)))))]
                                  @ inner @
                                  [end_env (env_of (b_type (hd (filter (\<lambda>c. is_list_type (b_type c)) (children block)))))])))
                   else
                     (case convert_out (children block) (if mode = ''items'' then ''paragraphs'' else mode) of
                        Inl e \<Rightarrow> Inl e
                      | Inr out \<Rightarrow>
                          if strip (join newline out) \<noteq> [] then
                            Inr ((CHR 0x5C # ''item '' @ rt_to_latex (get_rich_text p)) @ newline @ join newline out)
                          else Inr (CHR 0x5C # ''item '' @ rt_to_latex (get_rich_text p)))
                 else Inr (CHR 0x5C # ''item '' @ rt_to_latex (get_rich_text p)))
          else Inr (CHR 0x5C # ''item '' @ rt_to_latex (get_rich_text p)))"
| "render_items [] mode = Inr []"
| "render_items (c # cs) mode =
     (case render_list_block_item c (get_str (b_type c)) mode of
        Inl e \<Rightarrow> Inl e
      | Inr body \<Rightarrow>
          (case render_items cs mode of
             Inl e \<Rightarrow> Inl e
           | Inr bodies \<Rightarrow> Inr (body # bodies)))"
| "convert_out [] mode = Inr []"
| "convert_out (b # blocks) mode =
     (if is_paragraph_like (b_type b) then
        (case map_of (b_fields b) (get_str (b_type b)) of
           None \<Rightarrow> Inl KeyError
         | Some p \<Rightarrow>
             (case convert_out blocks mode of
                Inl e \<Rightarrow> Inl e
              | Inr out \<Rightarrow>
                  if strip (paragraph_text (b_type b) p) \<noteq> [] then
                    if mode = ''items'' then
                      Inr ((CHR 0x5C # ''item '' @ paragraph_text (b_type b) p) # out)
                    else Inr (paragraph_text (b_type b) p # out)
                  else Inr out))
      else if is_list_type (b_type b) then
        (if mode = ''items'' then
           (case render_items (b # takeWhile (\<lambda>c. b_type c = b_type b) blocks) ''items'' of
              Inl e \<Rightarrow> Inl e
            | Inr items \<Rightarrow>
                (case convert_out (dropWhile (\<lambda>c. b_type c = b_type b) blocks) mode of
                   Inl e \<Rightarrow> Inl e
                 | Inr out \<Rightarrow> Inr (items @ out)))
         else
           (case render_items (b # takeWhile (\<lambda>c. b_type c = b_type b) blocks) ''paragraphs'' of
              Inl e \<Rightarrow> Inl e
            | Inr items \<Rightarrow>
                (case convert_out (dropWhile (\<lambda>c. b_type c = b_type b) blocks) mode of
                   Inl e \<Rightarrow> Inl e
                 | Inr out \<Rightarrow>
                     Inr ([begin_env (env_of (b_type b))] @ items @ [end_env (env_of (b_type b))] @ out))))
      else
        (case b_type b of
           None \<Rightarrow> Inl AttributeError
         | Some tp \<Rightarrow>
             if startswith tp ''heading_'' then convert_out blocks mode
             else convert_out blocks mode))"
  by pat_completeness auto
termination
proof (relation "measure (\<lambda>x. case x of
          Inl (b, _, _) \<Rightarrow> 3 * size b
        | Inr (Inl (bs, _)) \<Rightarrow> 3 * size_list size bs + 1
        | Inr (Inr (bs, _)) \<Rightarrow> 3 * size_list size bs + 2)", goal_cases)
  case 1
  show ?case by simp
next
  case (2 block list_type mode p x)
  have "size_list size (filter (\<lambda>c. is_list_type (b_type c)) (children block))
          \<le> size_list size (children block)"
    by (rule size_list_filter_le)
  moreover have "size_list size (children block) < size block"
    by (cases block) simp
  ultimately show ?case by simp
next
  case (3 block list_type mode p x)
  have "size_list size (children block) < size block"
    by (cases block) simp
  then show ?case by simp
next
  case (4 c cs mode)
  show ?case by simp
next
  case (5 c cs mode body)
  show ?case by simp
next
  case (6 b blocks mode p)
  show ?case by simp
next
  case (7 b blocks mode)
  have "size_list size (takeWhile (\<lambda>c. b_type c = b_type b) blocks) \<le> size_list size blocks"
    by (rule size_list_takeWhile_le)
  then show ?case by simp
next
  case (8 b blocks mode items)
  have "size_list size (dropWhile (\<lambda>c. b_type c = b_type b) blocks) \<le> size_list size blocks"
    by (rule size_list_dropWhile_le)
  then show ?case by simp
next
  case (9 b blocks mode)
  have "size_list size (takeWhile (\<lambda>c. b_type c = b_type b) blocks) \<le> size_list size blocks"
    by (rule size_list_takeWhile_le)
  then show ?case by simp
next
  case (10 b blocks mode items)
  have "size_list size (dropWhile (\<lambda>c. b_type c = b_type b) blocks) \<le> size_list size blocks"
    by (rule size_list_dropWhile_le)
  then show ?case by simp
next
  case (11 b blocks mode tp)
  show ?case by simp
next
  case (12 b blocks mode tp)
  show ?case by simp
qed

definition convert_blocks_to_latex :: "block list \<Rightarrow> string \<Rightarrow> py_error + string" where
  "convert_blocks_to_latex blocks mode =
     (case convert_out blocks mode of
        Inl e \<Rightarrow> Inl e
      | Inr out \<Rightarrow> Inr (join newline out))"

section \<open>Dates\<close>

subsection \<open>String operations the date functions use\<close>

text \<open>\<^verbatim>\<open>s.split()\<close>: the maximal runs of characters that are not white space. \<^term>\<open>cur\<close>
  is the run being read, reversed.\<close>

fun split_ws_acc :: "string \<Rightarrow> string \<Rightarrow> string list" where
  "split_ws_acc cur [] = (if cur = [] then [] else [rev cur])"
| "split_ws_acc cur (c # cs) =
     (if is_space c then
        (if cur = [] then split_ws_acc [] cs else rev cur # split_ws_acc [] cs)
      else split_ws_acc (c # cur) cs)"

definition split_ws :: "string \<Rightarrow> string list" where
  "split_ws s = split_ws_acc [] s"

text \<open>\<^verbatim>\<open>s.split(",")\<close>: the pieces between the commas, empty pieces kept.\<close>

fun split_comma :: "string \<Rightarrow> string list" where
  "split_comma [] = [[]]"
| "split_comma (c # cs) =
     (if c = CHR '','' then [] # split_comma cs
      else (case split_comma cs of
              [] \<Rightarrow> [[c]]
            | w # ws \<Rightarrow> (c # w) # ws))"

text \<open>\<^verbatim>\<open>" -- " in s\<close>.\<close>

fun has_sep :: "string \<Rightarrow> bool" where
  "has_sep [] = False"
| "has_sep (c # cs) = (take 4 (c # cs) = '' -- '' \<or> has_sep cs)"

text \<open>\<^verbatim>\<open>s.split(" -- ", 1)\<close> when the separator occurs: the text before its first
  occurrence and the text after it. Without an occurrence the result is \<^term>\<open>None\<close>; the
  program splits only after it has found the separator with \<^verbatim>\<open>in\<close>.\<close>

fun split_sep :: "string \<Rightarrow> (string \<times> string) option" where
  "split_sep [] = None"
| "split_sep (c # cs) =
     (if take 4 (c # cs) = '' -- '' then Some ([], drop 4 (c # cs))
      else (case split_sep cs of
              None \<Rightarrow> None
            | Some (before, after) \<Rightarrow> Some (c # before, after)))"

text \<open>\<^verbatim>\<open>s.replace(dash, "--")\<close> for a dash of three bytes \<^term>\<open>[x, y, z]\<close>, from left to
  right.\<close>

fun replace_dash :: "char \<Rightarrow> char \<Rightarrow> char \<Rightarrow> string \<Rightarrow> string" where
  "replace_dash x y z (a # b # c # rest) =
     (if a = x \<and> b = y \<and> c = z then ''--'' @ replace_dash x y z rest
      else a # replace_dash x y z (b # c # rest))"
| "replace_dash x y z s = s"

text \<open>\<^verbatim>\<open>override_text.replace(em dash, "--").replace(en dash, "--")\<close>: the em dash is
  the bytes E2 80 94, the en dash E2 80 93.\<close>

definition normalize_dashes :: "string \<Rightarrow> string" where
  "normalize_dashes s =
     replace_dash (CHR 0xE2) (CHR 0x80) (CHR 0x93) (replace_dash (CHR 0xE2) (CHR 0x80) (CHR 0x94) s)"

text \<open>\<^verbatim>\<open>int(s)\<close> on a string without white space: an optional sign, then decimal digits,
  single underscores allowed between digits. \<^term>\<open>None\<close> is the \<^verbatim>\<open>ValueError\<close>.\<close>

definition digit_val :: "char \<Rightarrow> int option" where
  "digit_val c = map_of (zip ''0123456789'' [0, 1, 2, 3, 4, 5, 6, 7, 8, 9]) c"

fun digits_acc :: "int \<Rightarrow> bool \<Rightarrow> string \<Rightarrow> int option" where
  "digits_acc acc after_digit [] = (if after_digit then Some acc else None)"
| "digits_acc acc after_digit (c # cs) =
     (case digit_val c of
        Some d \<Rightarrow> digits_acc (10 * acc + d) True cs
      | None \<Rightarrow> if c = CHR ''_'' \<and> after_digit then digits_acc acc False cs else None)"

definition py_int :: "string \<Rightarrow> int option" where
  "py_int s =
     (case s of
        [] \<Rightarrow> None
      | c # cs \<Rightarrow>
          if c = CHR ''-'' then map_option uminus (digits_acc 0 False cs)
          else if c = CHR ''+'' then digits_acc 0 False cs
          else digits_acc 0 False s)"

text \<open>\<^verbatim>\<open>xs.index(x)\<close> for an \<^term>\<open>x\<close> that is in the list.\<close>

definition index_of :: "'a list \<Rightarrow> 'a \<Rightarrow> nat" where
  "index_of xs x = length (takeWhile (\<lambda>y. y \<noteq> x) xs)"

text \<open>\<^verbatim>\<open>min(xs, key=key)\<close> and \<^verbatim>\<open>max(xs, key=key)\<close> on a list with head \<^term>\<open>best\<close>: the
  first element with the least, or the greatest, key.\<close>

fun min_by :: "('a \<Rightarrow> 'k::linorder) \<Rightarrow> 'a \<Rightarrow> 'a list \<Rightarrow> 'a" where
  "min_by key best [] = best"
| "min_by key best (x # xs) = (if key x < key best then min_by key x xs else min_by key best xs)"

fun max_by :: "('a \<Rightarrow> 'k::linorder) \<Rightarrow> 'a \<Rightarrow> 'a list \<Rightarrow> 'a" where
  "max_by key best [] = best"
| "max_by key best (x # xs) = (if key best < key x then max_by key x xs else max_by key best xs)"

subsection \<open>Parsing dates\<close>

definition MONTHS :: "string list" where
  "MONTHS = [''Jan'', ''Feb'', ''Mar'', ''Apr'', ''May'', ''Jun'',
             ''Jul'', ''Aug'', ''Sep'', ''Oct'', ''Nov'', ''Dec'']"

text \<open>The result is a pair of Python integers, compared as Python compares tuples: by
  the year, then by the month.\<close>

definition parse_date_for_sorting :: "string \<Rightarrow> int \<times> int" where
  "parse_date_for_sorting date_str =
     (if date_str = [] \<or> lower date_str = ''present'' then (9999, 12)
      else
        (case split_ws date_str of
           [month_name, year_str] \<Rightarrow>
             (case py_int year_str of
                None \<Rightarrow> (0, 0)
              | Some year \<Rightarrow>
                  (year, if month_name \<in> set MONTHS then int (index_of MONTHS month_name) + 1 else 0))
         | _ \<Rightarrow> (0, 0)))"

text \<open>The loop over \<^verbatim>\<open>ranges\<close>: the pairs appended to \<^verbatim>\<open>start_dates\<close> and
  \<^verbatim>\<open>end_dates\<close>, in order.\<close>

fun parsed_ranges :: "string list \<Rightarrow> (string \<times> string) list" where
  "parsed_ranges [] = []"
| "parsed_ranges (range_str # ranges) =
     (if has_sep range_str then
        (case split_sep range_str of
           None \<Rightarrow> parsed_ranges ranges
         | Some (start_part, end_part) \<Rightarrow> (strip start_part, strip end_part) # parsed_ranges ranges)
      else parsed_ranges ranges)"

text \<open>The last two cases of \<^verbatim>\<open>parse_date_override\<close>: one range, or a start alone.\<close>

definition single_range :: "string \<Rightarrow> string \<times> string option" where
  "single_range normalized_text =
     (if has_sep normalized_text then
        (case split_sep normalized_text of
           None \<Rightarrow> (strip normalized_text, None)
         | Some (start_part, end_part) \<Rightarrow> (strip start_part, Some (strip end_part)))
      else (strip normalized_text, None))"

definition parse_date_override :: "string \<Rightarrow> string \<times> string option" where
  "parse_date_override override_text =
     (let normalized_text = normalize_dashes override_text in
      if CHR '','' \<in> set normalized_text then
        (let ranges = map strip (split_comma normalized_text);
             start_dates = map fst (parsed_ranges ranges);
             end_dates = map snd (parsed_ranges ranges)
         in if start_dates \<noteq> [] \<and> end_dates \<noteq> [] then
              (let earliest_start = min_by parse_date_for_sorting (hd start_dates) (tl start_dates);
                   end_dates_no_present = filter (\<lambda>d. lower d \<noteq> ''present'') end_dates;
                   latest_end =
                     (if end_dates_no_present \<noteq> [] then
                        max_by parse_date_for_sorting (hd end_dates_no_present) (tl end_dates_no_present)
                      else ''Present'')
               in (earliest_start, Some latest_end))
            else single_range normalized_text)
      else single_range normalized_text)"



subsection \<open>The date range of a page\<close>








section \<open>Sorting entries\<close>






section \<open>Notions for stating the properties\<close>



text \<open>
  A nesting written from the outside in, for stating in which order constructs nest: the
  head of the list is the outermost construct, and a construct that is switched off is
  left out.
\<close>

fun nest_styles :: "(bool \<times> string) list \<Rightarrow> string \<Rightarrow> string" where
  "nest_styles [] t = t"
| "nest_styles ((on, cmd) # inner) t =
     (if on then wrap cmd (nest_styles inner t) else nest_styles inner t)"

definition style_nesting :: "annotations \<Rightarrow> (bool \<times> string) list" where
  "style_nesting a =
     [(strikethrough a, ''sout''), (underline a, ''uline''), (italic a, ''textit''),
      (bold a, ''textbf''), (code a, ''texttt'')]"




text \<open>The whole plain text of a list of spans.\<close>

definition spans_text :: "span list \<Rightarrow> string" where
  "spans_text spans = concat (map (\<lambda>s. get_str (plain_text s)) spans)"

text \<open>
  A block of the shape the converter reads without an exception: it has a type; when
  its type is paragraph, quote, equation, code or a list item, the payload is stored
  under the key its type names; a list item that has children has an id; and its
  children are of that shape too.
\<close>

fun well_formed :: "block \<Rightarrow> bool" where
  "well_formed (Block tp payloads hc bid cs) =
     (tp \<noteq> None
      \<and> (is_paragraph_like tp \<or> is_list_type tp \<longrightarrow> map_of payloads (get_str tp) \<noteq> None)
      \<and> (is_list_type tp \<and> hc \<longrightarrow> bid \<noteq> None)
      \<and> (\<forall>c\<in>set cs. well_formed c))"

section \<open>Example inputs\<close>

text \<open>A paragraph and a level-1 heading with one plain span, and a span with a link, bold
  and italic.\<close>

definition plain_span :: "string \<Rightarrow> span" where
  "plain_span t = \<lparr>plain_text = Some t, href = None, annotations = None\<rparr>"

definition paragraph_block :: "string \<Rightarrow> block" where
  "paragraph_block t =
     Block (Some ''paragraph'')
       [(''paragraph'', \<lparr>rich_text = Some [plain_span t], expression = None\<rparr>)] False None []"

definition heading_1_block :: "span list \<Rightarrow> block" where
  "heading_1_block spans =
     Block (Some ''heading_1'')
       [(''heading_1'', \<lparr>rich_text = Some spans, expression = None\<rparr>)] False None []"

definition linked_bold_italic :: span where
  "linked_bold_italic =
     \<lparr>plain_text = Some ''a_b'', href = Some ''http://x.y/a_b%20#c'',
      annotations = Some \<lparr>bold = True, italic = True, strikethrough = False,
                           underline = False, code = False\<rparr>\<rparr>"

definition all_styles :: span where
  "all_styles =
     \<lparr>plain_text = Some ''50%'', href = None,
      annotations = Some \<lparr>bold = True, italic = True, strikethrough = True,
                           underline = True, code = True\<rparr>\<rparr>"




text \<open>A list item with children, and a list of blocks with nested lists and a block of
  an unknown kind.\<close>

definition list_item_block :: "string \<Rightarrow> string \<Rightarrow> block list \<Rightarrow> block" where
  "list_item_block tp t cs =
     Block (Some tp) [(tp, \<lparr>rich_text = Some [plain_span t], expression = None\<rparr>)]
       (cs \<noteq> []) (Some ''id'') cs"

definition nested_example :: "block list" where
  "nested_example =
     [paragraph_block ''A'',
      list_item_block ''bulleted_list_item'' ''b'' [list_item_block ''numbered_list_item'' ''n'' []],
      Block (Some ''divider'') [] False None [],
      list_item_block ''bulleted_list_item'' ''c'' [paragraph_block ''p'']]"

section \<open>The inline renderer\<close>

lemma rt_span_nested:
  "rt_span rt =
     nest_styles (style_nesting (span_ann rt))
       (if truthy (href rt) then wrap_href (the (href rt)) (latex_escape (get_str (plain_text rt)))
        else latex_escape (get_str (plain_text rt)))"
  by (simp add: rt_span_def style_nesting_def Let_def)

lemma rt_to_latex_single: "rt_to_latex [rt] = rt_span rt"
  by (simp add: rt_to_latex_def)

text \<open>
  C1, as the code has it. The text styles of a span nest in a fixed order, and it is the
  reverse of the order in which the code tests them: strikethrough is the outermost
  construct, then underline, italic and bold, and code is the innermost, around the
  escaped text. A span with bold and italic alone is the italic construct around the bold
  construct around the escaped text. The statement is about a span without a link target.
\<close>

theorem rt_to_latex_style_order:
  assumes "\<not> truthy (href rt)"
  shows "rt_to_latex [rt] =
           nest_styles
             [(strikethrough (span_ann rt), ''sout''), (underline (span_ann rt), ''uline''),
              (italic (span_ann rt), ''textit''), (bold (span_ann rt), ''textbf''),
              (code (span_ann rt), ''texttt'')]
             (latex_escape (get_str (plain_text rt)))
         \<and> (annotations rt = Some \<lparr>bold = True, italic = True, strikethrough = False,
                                     underline = False, code = False\<rparr> \<longrightarrow>
            rt_to_latex [rt] = wrap ''textit'' (wrap ''textbf'' (latex_escape (get_str (plain_text rt)))))"
proof -
  have nested: "rt_to_latex [rt] =
           nest_styles
             [(strikethrough (span_ann rt), ''sout''), (underline (span_ann rt), ''uline''),
              (italic (span_ann rt), ''textit''), (bold (span_ann rt), ''textbf''),
              (code (span_ann rt), ''texttt'')]
             (latex_escape (get_str (plain_text rt)))"
    using assms by (simp add: rt_to_latex_single rt_span_nested style_nesting_def)
  have "rt_to_latex [rt] = wrap ''textit'' (wrap ''textbf'' (latex_escape (get_str (plain_text rt))))"
    if "annotations rt = Some \<lparr>bold = True, italic = True, strikethrough = False,
                                  underline = False, code = False\<rparr>"
    using nested that by (simp add: span_ann_def)
  with nested show ?thesis by blast
qed

text \<open>The theorem at a span with all five styles: the five constructs, strikethrough
  outermost and code innermost, around the escaped text.\<close>

theorem rt_to_latex_style_order_witness:
  "rt_to_latex [all_styles] =
     CHR 0x5C # ''sout{'' @ CHR 0x5C # ''uline{'' @ CHR 0x5C # ''textit{'' @ CHR 0x5C # ''textbf{''
       @ CHR 0x5C # ''texttt{50'' @ CHR 0x5C # ''%}}}}}''"
  using rt_to_latex_style_order [of all_styles]
  by (simp add: all_styles_def truthy_def span_ann_def wrap_def latex_escape_def
      LATEX_SPECIALS_def get_str_def)

text \<open>C1 as the specification states it fails: with a link, bold and italic, the link
  construct is the innermost one and the italic construct the outermost, not the link
  around bold around italic.\<close>

theorem rt_to_latex_link_outermost_counterexample:
  "rt_to_latex [linked_bold_italic] =
     wrap ''textit'' (wrap ''textbf'' (wrap_href ''http://x.y/a_b%20#c'' (latex_escape ''a_b'')))
   \<and> rt_to_latex [linked_bold_italic] \<noteq>
     wrap_href ''http://x.y/a_b%20#c'' (wrap ''textbf'' (wrap ''textit'' (latex_escape ''a_b'')))"
  by (simp add: rt_to_latex_single rt_span_def linked_bold_italic_def truthy_def span_ann_def
      wrap_def wrap_href_def get_str_def Let_def)

text \<open>
  C10. The link target of a span is never escaped: a span with a link target renders as
  its text styles around the link construct, and the link construct holds the target as
  it is, character by character, and the escaped text. In the rendering of a list of
  spans this construct stands for every span that has a link target.
\<close>

theorem rt_to_latex_href_verbatim:
  assumes "href rt = Some url" and "url \<noteq> []"
  shows "rt_to_latex [rt] =
           nest_styles (style_nesting (span_ann rt))
             (CHR 0x5C # ''href{'' @ url @ ''}{'' @ latex_escape (get_str (plain_text rt)) @ ''}'')
         \<and> (rt \<in> set spans \<longrightarrow>
             (\<exists>before after. rt_to_latex spans =
                before @ nest_styles (style_nesting (span_ann rt))
                  (CHR 0x5C # ''href{'' @ url @ ''}{'' @ latex_escape (get_str (plain_text rt)) @ ''}'')
                @ after))"
proof -
  have span: "rt_span rt =
           nest_styles (style_nesting (span_ann rt))
             (CHR 0x5C # ''href{'' @ url @ ''}{'' @ latex_escape (get_str (plain_text rt)) @ ''}'')"
    using assms by (simp add: rt_span_nested truthy_def wrap_href_def)
  have "\<exists>before after. rt_to_latex spans = before @ rt_span rt @ after" if "rt \<in> set spans"
  proof -
    from that obtain xs ys where "spans = xs @ rt # ys"
      by (auto simp: in_set_conv_decomp)
    then have "rt_to_latex spans = rt_to_latex xs @ rt_span rt @ rt_to_latex ys"
      by (simp add: rt_to_latex_def)
    then show ?thesis by blast
  qed
  with span show ?thesis by (simp add: rt_to_latex_single)
qed

text \<open>The theorem at a span whose target and text both hold an underscore: the text is
  escaped, the target is not.\<close>

theorem rt_to_latex_href_verbatim_witness:
  "rt_to_latex [linked_bold_italic] =
     CHR 0x5C # ''textit{'' @ CHR 0x5C # ''textbf{'' @ CHR 0x5C # ''href{http://x.y/a_b%20#c}{a''
       @ CHR 0x5C # ''_b}}}''"
  using rt_to_latex_href_verbatim [of linked_bold_italic "''http://x.y/a_b%20#c''" "[]"]
  by (simp add: linked_bold_italic_def span_ann_def style_nesting_def wrap_def latex_escape_def
      LATEX_SPECIALS_def get_str_def)

section \<open>The region filter on the specification's example\<close>

text \<open>
  C3. On the blocks A, the heading "For Resume", B, C, the heading "Not For Resume", D
  the filter returns A, B and C: the block before the "For Resume" heading is kept.
\<close>

theorem filter_for_resume_region_example:
  "filter_for_resume_region
     [paragraph_block ''A'', heading_1_block [plain_span ''For Resume''],
      paragraph_block ''B'', paragraph_block ''C'',
      heading_1_block [plain_span ''Not For Resume''], paragraph_block ''D'']
   = Inr [paragraph_block ''A'', paragraph_block ''B'', paragraph_block ''C'']"
  by code_simp

section \<open>Date overrides on the specification's examples\<close>

text \<open>
  C2, as the code has it. For the override "Jan 2020 -- Dec 2021, Jan 2023 -- Present" the
  start is "Jan 2020" and the end is "Dec 2021": a range with a concrete end exists, and
  a concrete end is preferred to "Present".
\<close>

theorem parse_date_override_concrete_and_present:
  "parse_date_override ''Jan 2020 -- Dec 2021, Jan 2023 -- Present''
     = (''Jan 2020'', Some ''Dec 2021'')"
  by code_simp

theorem parse_date_override_concrete_and_present_witness:
  "fst (parse_date_override ''Jan 2020 -- Dec 2021, Jan 2023 -- Present'') = ''Jan 2020''
   \<and> snd (parse_date_override ''Jan 2020 -- Dec 2021, Jan 2023 -- Present'') \<noteq> Some ''Present''"
  using parse_date_override_concrete_and_present by simp

text \<open>C2 as the specification states it fails: the end is not "Present".\<close>

theorem parse_date_override_present_counterexample:
  "parse_date_override ''Jan 2020 -- Dec 2021, Jan 2023 -- Present''
     \<noteq> (''Jan 2020'', Some ''Present'')"
  by code_simp

section \<open>The date-for-sorting parser\<close>
















section \<open>Date overrides of several ranges\<close>












section \<open>Date overrides without a separator\<close>




















section \<open>Sorting entries by date\<close>













section \<open>Sentinel headings of several spans\<close>

lemma rstrip_append:
  assumes "\<exists>c\<in>set r. \<not> is_space c"
  shows "rev (dropWhile is_space (rev (d @ r))) = d @ rev (dropWhile is_space (rev r))"
proof -
  from assms obtain c where "c \<in> set (rev r)" "\<not> is_space c" by auto
  then have "dropWhile is_space (rev r @ rev d) = dropWhile is_space (rev r) @ rev d"
    by (rule dropWhile_append1)
  then show ?thesis by simp
qed

lemma rstrip_nonempty:
  assumes "\<exists>c\<in>set r. \<not> is_space c"
  shows "dropWhile is_space (rev r) \<noteq> []"
  using assms by (auto simp: dropWhile_eq_Nil_conv)

lemma rstrip_prefix: "\<exists>w. d = rev (dropWhile is_space (rev d)) @ w"
proof -
  have "rev (takeWhile is_space (rev d) @ dropWhile is_space (rev d)) = d" by simp
  then have "rev (dropWhile is_space (rev d)) @ rev (takeWhile is_space (rev d)) = d"
    by (simp only: rev_append)
  then show ?thesis by metis
qed

lemma strip_first_part:
  assumes "\<exists>c\<in>set r. \<not> is_space c"
  shows "\<exists>w. strip (s @ r) = strip s @ w \<and> w \<noteq> []"
proof (cases "dropWhile is_space s = []")
  case True
  then have "strip s = []" by (simp only: strip_def rev.simps dropWhile.simps)
  moreover have "strip (s @ r) \<noteq> []"
  proof -
    from True have "\<forall>c\<in>set s. is_space c" by (simp add: dropWhile_eq_Nil_conv)
    then have "dropWhile is_space (s @ r) = dropWhile is_space r"
      by (simp add: dropWhile_append2)
    moreover from assms have "\<exists>c\<in>set (dropWhile is_space r). \<not> is_space c"
      by (metis dropWhile_eq_Nil_conv hd_dropWhile hd_in_set)
    ultimately show ?thesis
      using rstrip_nonempty [of "dropWhile is_space r"] by (simp add: strip_def)
  qed
  ultimately show ?thesis by simp
next
  case False
  let ?d = "dropWhile is_space s"
  from False obtain c where "c \<in> set s" "\<not> is_space c"
    by (auto simp: dropWhile_eq_Nil_conv)
  then have "dropWhile is_space (s @ r) = ?d @ r"
    by (rule dropWhile_append1)
  then have whole: "strip (s @ r) = ?d @ rev (dropWhile is_space (rev r))"
    using rstrip_append [OF assms, of ?d] by (simp add: strip_def)
  from rstrip_prefix [of ?d] obtain w where w: "?d = strip s @ w"
    by (auto simp: strip_def)
  have "rev (dropWhile is_space (rev r)) \<noteq> []"
    using rstrip_nonempty [OF assms] by simp
  with whole w have "strip (s @ r) = strip s @ (w @ rev (dropWhile is_space (rev r)))
      \<and> w @ rev (dropWhile is_space (rev r)) \<noteq> []"
    by (metis append.assoc append_is_Nil_conv)
  then show ?thesis by blast
qed

lemma proper_prefix_not_sentinel:
  assumes "x @ w = ''for resume'' \<or> x @ w = ''not for resume''" and "w \<noteq> []"
  shows "x \<noteq> ''for resume'' \<and> x \<noteq> ''not for resume''"
proof -
  from assms(2) have len: "length x < length (x @ w)" by simp
  from assms(1) show ?thesis
  proof
    assume e: "x @ w = ''for resume''"
    with len have "length x < 10" by simp
    then show ?thesis by auto
  next
    assume e: "x @ w = ''not for resume''"
    with len have l: "length x < 14" by simp
    have "x \<noteq> ''for resume''"
    proof
      assume "x = ''for resume''"
      with e show False by simp
    qed
    with l show ?thesis by auto
  qed
qed

lemma first_span_not_sentinel:
  assumes "rich_text p = Some (first # others)"
    and "lower (strip (spans_text (first # others))) = ''for resume''
         \<or> lower (strip (spans_text (first # others))) = ''not for resume''"
    and "\<exists>c\<in>set (spans_text others). \<not> is_space c"
  shows "lower (first_span_text p) \<noteq> ''for resume'' \<and> lower (first_span_text p) \<noteq> ''not for resume''"
proof -
  let ?t = "get_str (plain_text first)"
  have whole: "spans_text (first # others) = ?t @ spans_text others"
    by (simp add: spans_text_def)
  from strip_first_part [OF assms(3), of ?t] obtain w
    where w: "strip (?t @ spans_text others) = strip ?t @ w" and ne: "w \<noteq> []" by blast
  then have "lower (strip (spans_text (first # others))) = lower (strip ?t) @ lower w"
    by (simp add: whole lower_def)
  moreover from ne have "lower w \<noteq> []" by (simp add: lower_def)
  ultimately have "lower (strip ?t) \<noteq> ''for resume'' \<and> lower (strip ?t) \<noteq> ''not for resume''"
    using assms(2) proper_prefix_not_sentinel [of "lower (strip ?t)" "lower w"] by simp
  then show ?thesis using assms(1) by (simp add: first_span_text_def)
qed

text \<open>
  C9. Take a level-1 heading of two or more spans whose whole text, stripped and in
  lower case, is "for resume" or "not for resume", with a visible character after the
  first span, so that the first span does not hold the whole sentinel text. The filter
  reads the first span alone: in any state of the loop it treats the heading as it
  treats a block that is no heading, keeping it under the same condition and going on
  with the state unchanged; at the head of the input the heading is kept.
\<close>

theorem filter_split_sentinel_ordinary:
  assumes "b_type h = Some ''heading_1''"
    and "map_of (b_fields h) ''heading_1'' = Some p"
    and "rich_text p = Some (first # others)"
    and "lower (strip (spans_text (first # others))) = ''for resume''
         \<or> lower (strip (spans_text (first # others))) = ''not for resume''"
    and "\<exists>c\<in>set (spans_text others). \<not> is_space c"
  shows "filter_loop in_resume found_for_resume filtered (h # blocks) =
           filter_loop in_resume found_for_resume
             (if \<not> found_for_resume \<or> in_resume then filtered @ [h] else filtered) blocks
         \<and> filter_for_resume_region (h # blocks) = filter_loop True False [h] blocks"
proof -
  from first_span_not_sentinel [OF assms(3,4,5)]
  have no: "lower (first_span_text p) \<noteq> ''for resume''" "lower (first_span_text p) \<noteq> ''not for resume''"
    by simp_all
  have step: "filter_loop ir f acc (h # blocks) =
           filter_loop ir f (if \<not> f \<or> ir then acc @ [h] else acc) blocks" for ir f acc
    using assms(1,2) no by simp
  then show ?thesis by (simp add: filter_for_resume_region_def)
qed

text \<open>The theorem at a heading with the spans "Not " and "For Resume": the heading and
  the paragraph after it are both returned.\<close>

theorem filter_split_sentinel_ordinary_witness:
  "filter_for_resume_region
     [heading_1_block [plain_span ''Not '', plain_span ''For Resume''], paragraph_block ''B'']
   = Inr [heading_1_block [plain_span ''Not '', plain_span ''For Resume''], paragraph_block ''B'']"
proof -
  let ?h = "heading_1_block [plain_span ''Not '', plain_span ''For Resume'']"
  let ?p = "\<lparr>rich_text = Some [plain_span ''Not '', plain_span ''For Resume''], expression = None\<rparr>"
  have tp: "b_type ?h = Some ''heading_1''"
    by (simp add: heading_1_block_def)
  have payload: "map_of (b_fields ?h) ''heading_1'' = Some ?p"
    by (simp add: heading_1_block_def)
  have spans: "rich_text ?p = Some (plain_span ''Not '' # [plain_span ''For Resume''])"
    by simp
  have sentinel: "lower (strip (spans_text (plain_span ''Not '' # [plain_span ''For Resume'']))) = ''for resume''
         \<or> lower (strip (spans_text (plain_span ''Not '' # [plain_span ''For Resume'']))) = ''not for resume''"
    by code_simp
  have visible: "\<exists>c\<in>set (spans_text [plain_span ''For Resume'']). \<not> is_space c"
    by code_simp
  have rest: "filter_loop True False [?h] [paragraph_block ''B''] = Inr [?h, paragraph_block ''B'']"
    by code_simp
  from filter_split_sentinel_ordinary [OF tp payload spans sentinel visible, of True False "[]" "[paragraph_block ''B'']"]
  show ?thesis
    using rest by simp
qed


section \<open>The block converter returns on well-formed blocks\<close>

lemma wf_type: "well_formed b \<Longrightarrow> \<exists>tp. b_type b = Some tp"
  by (cases b) auto

lemma wf_payload:
  "well_formed b \<Longrightarrow> is_paragraph_like (b_type b) \<or> is_list_type (b_type b) \<Longrightarrow>
   \<exists>p. map_of (b_fields b) (get_str (b_type b)) = Some p"
  by (cases b) auto

lemma wf_id: "well_formed b \<Longrightarrow> is_list_type (b_type b) \<Longrightarrow> has_children b \<Longrightarrow> \<exists>i. b_id b = Some i"
  by (cases b) auto

lemma wf_children: "well_formed b \<Longrightarrow> c \<in> set (children b) \<Longrightarrow> well_formed c"
  by (cases b) auto

lemma converter_total:
  "well_formed block \<Longrightarrow> is_list_type (b_type block) \<Longrightarrow> list_type = get_str (b_type block) \<Longrightarrow>
     \<exists>s. render_list_block_item block list_type mode = Inr s"
  "\<forall>c\<in>set cs. well_formed c \<and> is_list_type (b_type c) \<Longrightarrow> \<exists>ss. render_items cs mode = Inr ss"
  "\<forall>b\<in>set bs. well_formed b \<Longrightarrow> \<exists>out. convert_out bs mode = Inr out"
proof (induction block list_type mode and cs mode and bs mode
    rule: render_list_block_item_render_items_convert_out.induct)
  case (1 block list_type mode)
  from wf_payload [OF "1.prems"(1)] "1.prems"(2,3)
  obtain p where p: "map_of (b_fields block) list_type = Some p" by blast
  show ?case
  proof (cases "has_children block")
    case False
    with p show ?thesis by (subst render_list_block_item.simps) simp
  next
    case hc: True
    from wf_id [OF "1.prems"(1,2) hc] obtain i where i: "b_id block = Some i" by blast
    show ?thesis
    proof (cases "children block = []")
      case True
      with p hc i show ?thesis by (subst render_list_block_item.simps) simp
    next
      case ne: False
      let ?items = "filter (\<lambda>c. is_list_type (b_type c)) (children block)"
      show ?thesis
      proof (cases "?items = []")
        case False
        have "\<forall>c\<in>set ?items. well_formed c \<and> is_list_type (b_type c)"
          using wf_children [OF "1.prems"(1)] by simp
        from "1.IH"(1) [OF p hc i ne False this]
        obtain inner where "render_items ?items mode = Inr inner" by blast
        with p hc i ne False show ?thesis by (subst render_list_block_item.simps) simp
      next
        case True
        then have none: "\<not> ?items \<noteq> []" by simp
        have "\<forall>c\<in>set (children block). well_formed c"
          using wf_children [OF "1.prems"(1)] by simp
        from "1.IH"(2) [OF p hc i ne none this]
        obtain out where "convert_out (children block) (if mode = ''items'' then ''paragraphs'' else mode) = Inr out"
          by blast
        with p hc i ne True show ?thesis by (subst render_list_block_item.simps) simp
      qed
    qed
  qed
next
  case (2 mode)
  show ?case by simp
next
  case (3 c cs mode)
  from "3.prems" have c: "well_formed c" "is_list_type (b_type c)"
    and cs: "\<forall>c\<in>set cs. well_formed c \<and> is_list_type (b_type c)" by simp_all
  from "3.IH"(1) [OF c refl]
  obtain body where body: "render_list_block_item c (get_str (b_type c)) mode = Inr body" by blast
  from "3.IH"(2) [OF body cs] obtain bodies where "render_items cs mode = Inr bodies" by blast
  with body show ?case by simp
next
  case (4 mode)
  show ?case by simp
next
  case (5 b blocks mode)
  from "5.prems" have b: "well_formed b" and rest: "\<forall>b\<in>set blocks. well_formed b" by simp_all
  let ?same = "\<lambda>c. b_type c = b_type b"
  show ?case
  proof (cases "is_paragraph_like (b_type b)")
    case True
    from wf_payload [OF b] True obtain p where p: "map_of (b_fields b) (get_str (b_type b)) = Some p"
      by blast
    from "5.IH"(1) [OF True p rest] obtain out where "convert_out blocks mode = Inr out" by blast
    with True p show ?thesis by simp
  next
    case para: False
    show ?thesis
    proof (cases "is_list_type (b_type b)")
      case True
      have run: "\<forall>c\<in>set (b # takeWhile ?same blocks). well_formed c \<and> is_list_type (b_type c)"
        using b True rest by (auto dest: set_takeWhileD)
      have after: "\<forall>b\<in>set (dropWhile ?same blocks). well_formed b"
        using rest by (auto dest: set_dropWhileD)
      show ?thesis
      proof (cases "mode = ''items''")
        case items: True
        from "5.IH"(2) [OF para True items run]
        obtain rendered where r: "render_items (b # takeWhile ?same blocks) ''items'' = Inr rendered"
          by blast
        from "5.IH"(3) [OF para True items r after]
        obtain out where "convert_out (dropWhile ?same blocks) mode = Inr out" by blast
        with para True items r show ?thesis by (simp del: render_items.simps)
      next
        case items: False
        from "5.IH"(4) [OF para True items run]
        obtain rendered where r: "render_items (b # takeWhile ?same blocks) ''paragraphs'' = Inr rendered"
          by blast
        from "5.IH"(5) [OF para True items r after]
        obtain out where "convert_out (dropWhile ?same blocks) mode = Inr out" by blast
        with para True items r show ?thesis by (simp del: render_items.simps)
      qed
    next
      case False
      from wf_type [OF b] obtain tp where tp: "b_type b = Some tp" by blast
      show ?thesis
      proof (cases "startswith tp ''heading_''")
        case True
        from "5.IH"(6) [OF para False tp True rest] obtain out where "convert_out blocks mode = Inr out"
          by blast
        with para False tp show ?thesis by simp
      next
        case h: False
        from "5.IH"(7) [OF para False tp h rest] obtain out where "convert_out blocks mode = Inr out"
          by blast
        with para False tp show ?thesis by simp
      qed
    qed
  qed
qed

lemma convert_out_unknown:
  assumes "b_type b = Some tp" "\<not> is_paragraph_like (Some tp)" "\<not> is_list_type (Some tp)"
  shows "convert_out (b # blocks) mode = convert_out blocks mode"
  using assms by simp

text \<open>
  C7, as the code has it. On a sequence of well-formed blocks the converter returns a
  text and raises no exception, in either mode. A block whose type is a string other
  than the six kinds the converter renders (an unknown kind, or a heading) adds nothing
  to the output, whatever else it holds.
\<close>

theorem convert_blocks_to_latex_well_formed:
  "((\<forall>b\<in>set blocks. well_formed b) \<longrightarrow> (\<exists>latex. convert_blocks_to_latex blocks mode = Inr latex))
   \<and> (b_type b = Some tp \<and> \<not> is_paragraph_like (Some tp) \<and> \<not> is_list_type (Some tp) \<longrightarrow>
        convert_blocks_to_latex (b # blocks) mode = convert_blocks_to_latex blocks mode)"
proof (intro conjI impI)
  assume "\<forall>b\<in>set blocks. well_formed b"
  from converter_total(3) [OF this] obtain out where "convert_out blocks mode = Inr out" by blast
  then show "\<exists>latex. convert_blocks_to_latex blocks mode = Inr latex"
    by (simp add: convert_blocks_to_latex_def)
next
  assume "b_type b = Some tp \<and> \<not> is_paragraph_like (Some tp) \<and> \<not> is_list_type (Some tp)"
  then have "convert_out (b # blocks) mode = convert_out blocks mode"
    using convert_out_unknown by blast
  then show "convert_blocks_to_latex (b # blocks) mode = convert_blocks_to_latex blocks mode"
    by (simp only: convert_blocks_to_latex_def)
qed


text \<open>The theorem at a paragraph, a bulleted item with a numbered child, a block of the
  unknown kind "divider" and a bulleted item with a paragraph child.\<close>

theorem convert_blocks_to_latex_well_formed_witness:
  "(\<exists>latex. convert_blocks_to_latex nested_example ''paragraphs'' = Inr latex)
   \<and> convert_blocks_to_latex (Block (Some ''divider'') [] False None [] # nested_example) ''items''
       = convert_blocks_to_latex nested_example ''items''"
proof -
  have "\<forall>b\<in>set nested_example. well_formed b"
    by (simp add: nested_example_def paragraph_block_def list_item_block_def is_paragraph_like_def
        is_list_type_def get_str_def)
  moreover have "b_type (Block (Some ''divider'') [] False None []) = Some ''divider''
      \<and> \<not> is_paragraph_like (Some ''divider'') \<and> \<not> is_list_type (Some ''divider'')"
    by (simp add: is_paragraph_like_def is_list_type_def)
  ultimately show ?thesis
    using convert_blocks_to_latex_well_formed [of nested_example "''paragraphs''"]
      convert_blocks_to_latex_well_formed [of nested_example "''items''" "Block (Some ''divider'') [] False None []" "''divider''"]
    by blast
qed

text \<open>C7 as the specification states it fails: a block without a type raises
  \<^verbatim>\<open>AttributeError\<close> (\<^verbatim>\<open>None\<close> has no \<^verbatim>\<open>startswith\<close>), and a paragraph without its payload
  raises \<^verbatim>\<open>KeyError\<close>.\<close>

theorem convert_blocks_to_latex_raises_counterexample:
  "convert_blocks_to_latex [paragraph_block ''A'', Block None [] False None []] ''paragraphs''
     = Inl AttributeError
   \<and> convert_blocks_to_latex [Block (Some ''paragraph'') [] False None []] ''paragraphs''
     = Inl KeyError"
  by code_simp


end
